theory Spec2Isabelle
  imports Complex_Main
begin

section \<open>Jacobi, constant-SOR and Chebyshev-SOR iterations (Jacobi.ipynb)\<close>

text \<open>
  The notebook computes with torch tensors of floating-point numbers. The embedding
  idealises every floating-point number to a real number: a tensor of shape \<open>n \<times> 1\<close> is a
  list of reals, a tensor of shape \<open>n \<times> n\<close> a list of rows. Python integers are \<open>int\<close>.
  Exceptions are values of type \<open>error\<close>, on the left of a sum.
\<close>

type_synonym vec = "real list"
type_synonym matrix = "real list list"

datatype error =
    ZeroDivisionError  \<comment> \<open>Python: division or modulo by zero\<close>
  | RuntimeError       \<comment> \<open>torch.inverse: the matrix is singular\<close>

subsection \<open>Scalars: the Chebyshev root and the two relaxation factors\<close>

text \<open>
  \<^verbatim>\<open>range(n)\<close> of Python: the indices \<open>0, \<dots>, n - 1\<close>, none when \<open>n \<le> 0\<close>.
\<close>

definition range_py :: "int \<Rightarrow> int list" where
  "range_py n = map int [0..<nat n]"

text \<open>
  \<^verbatim>\<open>def c_root(k, a, b, T):
    return (a + b)/2.0 + ((b - a)/2.0) * math.cos(math.pi * (2*k+1)/(2*T))\<close>
  The division by \<open>2*T\<close> raises when \<open>T\<close> is zero.
\<close>

definition c_root :: "int \<Rightarrow> real \<Rightarrow> real \<Rightarrow> int \<Rightarrow> error + real" where
  "c_root k a b T =
     (if 2 * T = 0 then Inl ZeroDivisionError
      else Inr ((a + b) / 2 + ((b - a) / 2) * cos (pi * real_of_int (2 * k + 1) / real_of_int (2 * T))))"

text \<open>
  The Chebyshev step of \<^verbatim>\<open>Chebychev_SOR_Jacobi.forward\<close>:
  \<^verbatim>\<open>gamma = 1.0/c_root(i % T, lmin, lmax, T)\<close>.
  Python's \<^verbatim>\<open>%\<close> on integers is the floored remainder, as \<open>mod\<close> on \<open>int\<close> is, and
  raises when \<open>T\<close> is zero; \<^verbatim>\<open>1.0/c\<close> raises when \<open>c\<close> is zero. The globals
  \<^verbatim>\<open>lmin\<close> and \<^verbatim>\<open>lmax\<close> are parameters here.
  The test for zero is made on the real root. The root the notebook computes in double
  precision is rounded, so where the real root vanishes or nearly vanishes (bounds of
  opposite signs) the two can differ in being zero: the model says when this division
  fails only for roots away from zero, as they are for \<open>0 < lmin \<le> lmax\<close>.
\<close>

definition chebychev_gamma :: "int \<Rightarrow> real \<Rightarrow> real \<Rightarrow> int \<Rightarrow> error + real" where
  "chebychev_gamma i lmin lmax T =
     (if T = 0 then Inl ZeroDivisionError
      else case c_root (i mod T) lmin lmax T of
             Inl e \<Rightarrow> Inl e
           | Inr c \<Rightarrow> if c = 0 then Inl ZeroDivisionError else Inr (1 / c))"

text \<open>
  The constant factor of \<^verbatim>\<open>plot_sor_jacobi\<close>:
  \<^verbatim>\<open>omega_opt = 2.0/(lmax+lmin)\<close>, a division of Python floats.
\<close>

definition omega_opt :: "real \<Rightarrow> real \<Rightarrow> error + real" where
  "omega_opt lmin lmax =
     (if lmax + lmin = 0 then Inl ZeroDivisionError else Inr (2 / (lmax + lmin)))"

subsection \<open>Tensors\<close>

text \<open>
  The tensor operations the notebook uses, on operands of the shapes the notebook gives
  them: \<open>P\<close> is \<open>n \<times> n\<close>, the vectors \<open>b\<close> and \<open>x\<close> are \<open>n \<times> 1\<close>. torch raises on
  operands whose shapes do not fit; the properties below assume the shapes fit.
\<close>

definition square_matrix :: "nat \<Rightarrow> matrix \<Rightarrow> bool" where
  "square_matrix n P \<longleftrightarrow> length P = n \<and> list_all (\<lambda>row. length row = n) P"

text \<open>\<^verbatim>\<open>torch.diagonal(P)\<close>: the main diagonal of a square matrix.\<close>

definition torch_diagonal :: "matrix \<Rightarrow> vec" where
  "torch_diagonal P = map (\<lambda>i. P ! i ! i) [0..<length P]"

text \<open>\<^verbatim>\<open>torch.diag_embed(d)\<close>: the square matrix with \<open>d\<close> on its diagonal, zero elsewhere.\<close>

definition diag_embed :: "vec \<Rightarrow> matrix" where
  "diag_embed d = map (\<lambda>i. map (\<lambda>j. if i = j then d ! i else 0) [0..<length d]) [0..<length d]"

text \<open>\<^verbatim>\<open>A - B\<close> and \<^verbatim>\<open>A + B\<close> on matrices, entry by entry.\<close>

definition mat_sub :: "matrix \<Rightarrow> matrix \<Rightarrow> matrix" where
  "mat_sub A B = map2 (map2 (-)) A B"

definition mat_add :: "matrix \<Rightarrow> matrix \<Rightarrow> matrix" where
  "mat_add A B = map2 (map2 (+)) A B"

text \<open>\<^verbatim>\<open>A @ x\<close> for a matrix and a column vector; \<^verbatim>\<open>A @ B\<close> for two matrices.\<close>

definition matvec :: "matrix \<Rightarrow> vec \<Rightarrow> vec" where
  "matvec A x = map (\<lambda>row. sum_list (map2 (*) row x)) A"

definition matmul :: "matrix \<Rightarrow> matrix \<Rightarrow> matrix" where
  "matmul A B = map (\<lambda>row. map (\<lambda>col. sum_list (map2 (*) row col)) (transpose B)) A"

text \<open>\<^verbatim>\<open>x - y\<close>, \<^verbatim>\<open>x + y\<close> and \<^verbatim>\<open>c * x\<close> on column vectors.\<close>

definition vec_sub :: "vec \<Rightarrow> vec \<Rightarrow> vec" where
  "vec_sub x y = map2 (-) x y"

definition vec_add :: "vec \<Rightarrow> vec \<Rightarrow> vec" where
  "vec_add x y = map2 (+) x y"

definition scal :: "real \<Rightarrow> vec \<Rightarrow> vec" where
  "scal c x = map ((*) c) x"

text \<open>\<^verbatim>\<open>torch.norm(r)\<close>: the Euclidean norm.\<close>

definition torch_norm :: "vec \<Rightarrow> real" where
  "torch_norm r = sqrt (\<Sum>a\<leftarrow>r. a\<^sup>2)"

text \<open>
  \<^verbatim>\<open>torch.inverse(A)\<close> is a routine of the torch library, not of the notebook. As
  the library documents it, it returns the inverse of a square matrix and raises a
  RuntimeError when the matrix is not invertible. Over the reals the inverse is unique;
  it is computed here by the cofactor formula, \<open>A\<^sup>-\<^sup>1 = adj A / det A\<close>, with the
  determinant expanded along the first row, for any square matrix.
\<close>

definition drop_at :: "nat \<Rightarrow> 'a list \<Rightarrow> 'a list" where
  "drop_at k xs = take k xs @ drop (Suc k) xs"

function det :: "matrix \<Rightarrow> real" where
  "det [] = 1"
| "det (r # rs) = (\<Sum>j\<leftarrow>[0..<length r]. (- 1) ^ j * r ! j * det (map (drop_at j) rs))"
  by pat_completeness auto
termination
  by (relation "measure length") auto

definition cofactor :: "matrix \<Rightarrow> nat \<Rightarrow> nat \<Rightarrow> real" where
  "cofactor A i j = (- 1) ^ (i + j) * det (map (drop_at j) (drop_at i A))"

definition torch_inverse :: "matrix \<Rightarrow> error + matrix" where
  "torch_inverse A =
     (let n = length A; d = det A
      in if d = 0 then Inl RuntimeError
         else Inr (map (\<lambda>i. map (\<lambda>j. cofactor A j i / d) [0..<n]) [0..<n]))"

text \<open>
  The default random generator, seeded once by \<^verbatim>\<open>torch.manual_seed(0)\<close>, is the
  stream of the samples it will deliver.
  \<^verbatim>\<open>torch.normal(torch.zeros(n,1), std=1.0)\<close> takes the next \<open>n\<close> samples.
\<close>

type_synonym generator = "nat \<Rightarrow> real"

definition torch_normal :: "nat \<Rightarrow> generator \<Rightarrow> vec \<times> generator" where
  "torch_normal n g = (map g [0..<n], \<lambda>k. g (n + k))"

text \<open>A generator that delivers the same sample forever, for the examples below.\<close>

definition constant_generator :: "real \<Rightarrow> generator" where
  "constant_generator c = (\<lambda>k. c)"

subsection \<open>The three solver classes\<close>

text \<open>
  The globals of the notebook that the functions below read: \<^verbatim>\<open>max_itr\<close>,
  \<^verbatim>\<open>lmin\<close>, \<^verbatim>\<open>lmax\<close> and \<^verbatim>\<open>q\<close>.
\<close>

record globals =
  global_max_itr :: int
  global_lmin :: real
  global_lmax :: real
  global_q :: vec

text \<open>
  The fields \<^verbatim>\<open>self.R\<close>, \<^verbatim>\<open>self.Dinv\<close>, \<^verbatim>\<open>self.b\<close> of the three classes, and
  \<^verbatim>\<open>self.omega\<close> of \<^verbatim>\<open>SOR_Jacobi\<close>.
\<close>

record Jacobi =
  self_R :: matrix
  self_Dinv :: matrix
  self_b :: vec

record SOR_Jacobi = Jacobi +
  self_omega :: real

type_synonym Chebychev_SOR_Jacobi = Jacobi

text \<open>
  \<^verbatim>\<open>def __init__(self, P, b):
    D = torch.diag_embed(torch.diagonal(P))
    self.R = P - D
    self.Dinv = torch.inverse(D)
    self.b = b\<close>
\<close>

definition Jacobi_init :: "matrix \<Rightarrow> vec \<Rightarrow> error + Jacobi" where
  "Jacobi_init P b =
     (let D = diag_embed (torch_diagonal P);
          R = mat_sub P D
      in case torch_inverse D of
           Inl e \<Rightarrow> Inl e
         | Inr Di \<Rightarrow> Inr \<lparr>self_R = R, self_Dinv = Di, self_b = b\<rparr>)"

definition SOR_Jacobi_init :: "matrix \<Rightarrow> vec \<Rightarrow> real \<Rightarrow> error + SOR_Jacobi" where
  "SOR_Jacobi_init P b omega =
     (let D = diag_embed (torch_diagonal P);
          R = mat_sub P D
      in case torch_inverse D of
           Inl e \<Rightarrow> Inl e
         | Inr Di \<Rightarrow> Inr \<lparr>self_R = R, self_Dinv = Di, self_b = b, self_omega = omega\<rparr>)"

definition Chebychev_SOR_Jacobi_init :: "matrix \<Rightarrow> vec \<Rightarrow> error + Chebychev_SOR_Jacobi" where
  "Chebychev_SOR_Jacobi_init P b =
     (let D = diag_embed (torch_diagonal P);
          R = mat_sub P D
      in case torch_inverse D of
           Inl e \<Rightarrow> Inl e
         | Inr Di \<Rightarrow> Inr \<lparr>self_R = R, self_Dinv = Di, self_b = b\<rparr>)"

text \<open>
  \<^verbatim>\<open>Jacobi.forward\<close>. The loop
  \<^verbatim>\<open>for i in range(num_itr): x = self.Dinv @ (self.b - self.R @ x)\<close>
  from a starting iterate, and the whole method, which draws the starting iterate.
\<close>

definition Jacobi_loop :: "Jacobi \<Rightarrow> int \<Rightarrow> vec \<Rightarrow> vec" where
  "Jacobi_loop self num_itr x0 =
     fold (\<lambda>i x. matvec (self_Dinv self) (vec_sub (self_b self) (matvec (self_R self) x)))
          (range_py num_itr) x0"

definition Jacobi_forward :: "Jacobi \<Rightarrow> int \<Rightarrow> generator \<Rightarrow> vec \<times> generator" where
  "Jacobi_forward self num_itr g =
     (let n = length (self_R self);
          (x, g') = torch_normal n g
      in (Jacobi_loop self num_itr x, g'))"

text \<open>
  \<^verbatim>\<open>SOR_Jacobi.forward\<close>, with the loop body
  \<^verbatim>\<open>tmp = self.Dinv @ (self.b - self.R @ x); x = x + self.omega*(tmp - x)\<close>.
\<close>

definition SOR_Jacobi_loop :: "SOR_Jacobi \<Rightarrow> int \<Rightarrow> vec \<Rightarrow> vec" where
  "SOR_Jacobi_loop self num_itr x0 =
     fold (\<lambda>i x. let tmp = matvec (self_Dinv self) (vec_sub (self_b self) (matvec (self_R self) x))
                  in vec_add x (scal (self_omega self) (vec_sub tmp x)))
          (range_py num_itr) x0"

definition SOR_Jacobi_forward :: "SOR_Jacobi \<Rightarrow> int \<Rightarrow> generator \<Rightarrow> vec \<times> generator" where
  "SOR_Jacobi_forward self num_itr g =
     (let n = length (self_R self);
          (x, g') = torch_normal n g
      in (SOR_Jacobi_loop self num_itr x, g'))"

text \<open>
  \<^verbatim>\<open>Chebychev_SOR_Jacobi.forward\<close>, with the loop body
  \<^verbatim>\<open>tmp = self.Dinv @ (self.b - self.R @ x)
  gamma = 1.0/c_root(i % T, lmin, lmax, T)
  x = x + gamma * (tmp - x)\<close>.
  The step can raise, and then the loop and the method raise.
\<close>

definition Chebychev_SOR_Jacobi_body ::
  "globals \<Rightarrow> Chebychev_SOR_Jacobi \<Rightarrow> int \<Rightarrow> int \<Rightarrow> vec \<Rightarrow> error + vec" where
  "Chebychev_SOR_Jacobi_body G self T i x =
     (let tmp = matvec (self_Dinv self) (vec_sub (self_b self) (matvec (self_R self) x))
      in case chebychev_gamma i (global_lmin G) (global_lmax G) T of
           Inl e \<Rightarrow> Inl e
         | Inr gamma \<Rightarrow> Inr (vec_add x (scal gamma (vec_sub tmp x))))"

definition Chebychev_SOR_Jacobi_loop ::
  "globals \<Rightarrow> Chebychev_SOR_Jacobi \<Rightarrow> int \<Rightarrow> int \<Rightarrow> vec \<Rightarrow> error + vec" where
  "Chebychev_SOR_Jacobi_loop G self num_itr T x0 =
     fold (\<lambda>i r. case r of Inl e \<Rightarrow> Inl e | Inr x \<Rightarrow> Chebychev_SOR_Jacobi_body G self T i x)
          (range_py num_itr) (Inr x0)"

definition Chebychev_SOR_Jacobi_forward ::
  "globals \<Rightarrow> Chebychev_SOR_Jacobi \<Rightarrow> int \<Rightarrow> int \<Rightarrow> generator \<Rightarrow> error + vec \<times> generator" where
  "Chebychev_SOR_Jacobi_forward G self num_itr T g =
     (let n = length (self_R self);
          (x, g') = torch_normal n g
      in case Chebychev_SOR_Jacobi_loop G self num_itr T x of
           Inl e \<Rightarrow> Inl e
         | Inr x' \<Rightarrow> Inr (x', g'))"

subsection \<open>The plot functions\<close>

text \<open>
  Each plot function builds \<^verbatim>\<open>norm_list\<close> and hands it to the plotting library against
  \<^verbatim>\<open>range(max_itr)\<close>; the model returns \<^verbatim>\<open>norm_list\<close> and the generator.
  \<^verbatim>\<open>for i in range(max_itr):
    r = jacobi(i)
    norm_list.append(torch.norm(r))\<close>
\<close>

definition plot_pure_jacobi ::
  "globals \<Rightarrow> matrix \<Rightarrow> vec \<Rightarrow> generator \<Rightarrow> error + real list \<times> generator" where
  "plot_pure_jacobi G P q g =
     (case Jacobi_init P q of
        Inl e \<Rightarrow> Inl e
      | Inr jacobi \<Rightarrow>
          Inr (fold (\<lambda>i (norm_list, g).
                       let (r, g') = Jacobi_forward jacobi i g
                       in (norm_list @ [torch_norm r], g'))
                    (range_py (global_max_itr G)) ([], g)))"

text \<open>
  \<^verbatim>\<open>plot_sor_jacobi(P, b, color)\<close> computes the constant factor from the globals and
  passes the global \<^verbatim>\<open>q\<close>, not its argument \<^verbatim>\<open>b\<close>, to the solver.
\<close>

definition plot_sor_jacobi ::
  "globals \<Rightarrow> matrix \<Rightarrow> vec \<Rightarrow> generator \<Rightarrow> error + real list \<times> generator" where
  "plot_sor_jacobi G P b g =
     (case omega_opt (global_lmin G) (global_lmax G) of
        Inl e \<Rightarrow> Inl e
      | Inr w \<Rightarrow>
          (case SOR_Jacobi_init P (global_q G) w of
             Inl e \<Rightarrow> Inl e
           | Inr sor_jacobi \<Rightarrow>
               Inr (fold (\<lambda>i (norm_list, g).
                            let (r, g') = SOR_Jacobi_forward sor_jacobi i g
                            in (norm_list @ [torch_norm r], g'))
                         (range_py (global_max_itr G)) ([], g))))"

text \<open>
  \<^verbatim>\<open>plot_chebychev_sor_jacobi(T, P, b, label, color)\<close> passes the global \<^verbatim>\<open>q\<close> as
  well; a run that raises ends the loop.
\<close>

definition plot_chebychev_sor_jacobi ::
  "globals \<Rightarrow> int \<Rightarrow> matrix \<Rightarrow> vec \<Rightarrow> generator \<Rightarrow> error + real list \<times> generator" where
  "plot_chebychev_sor_jacobi G T P b g =
     (case Chebychev_SOR_Jacobi_init P (global_q G) of
        Inl e \<Rightarrow> Inl e
      | Inr chebychev_sor_jacobi \<Rightarrow>
          fold (\<lambda>i acc. case acc of
                    Inl e \<Rightarrow> Inl e
                  | Inr (c_norm_list, g) \<Rightarrow>
                      (case Chebychev_SOR_Jacobi_forward G chebychev_sor_jacobi i T g of
                         Inl e \<Rightarrow> Inl e
                       | Inr (r, g') \<Rightarrow> Inr (c_norm_list @ [torch_norm r], g')))
               (range_py (global_max_itr G)) (Inr ([], g)))"

subsection \<open>The step of the specification\<close>



section \<open>Properties\<close>

subsection \<open>The inverse of a diagonal matrix\<close>

text \<open>
  The model of \<^verbatim>\<open>torch.inverse\<close> at a matrix that is not diagonal, and at a singular
  one.
\<close>

lemma torch_inverse_example:
  "torch_inverse [[2, 1], [1, 4]] = Inr [[4 / 7, - 1 / 7], [- 1 / 7, 2 / 7]]
   \<and> matmul [[4 / 7, - 1 / 7], [- 1 / 7, 2 / 7]] [[2, 1], [1, 4]] = [[1, 0], [0, 1]]
   \<and> torch_inverse [[1, 2], [2, 4]] = Inl RuntimeError"
  by (simp add: torch_inverse_def cofactor_def drop_at_def matmul_def transpose.simps)

lemma length_drop_at: "k < length xs \<Longrightarrow> length (drop_at k xs) = length xs - 1"
  by (simp add: drop_at_def)

lemma nth_drop_at:
  "k < length xs \<Longrightarrow> i < length xs - 1 \<Longrightarrow> drop_at k xs ! i = xs ! (if i < k then i else Suc i)"
  by (auto simp: drop_at_def nth_append min_def)

lemma set_drop_at: "set (drop_at k xs) \<subseteq> set xs"
  unfolding drop_at_def using set_take_subset [of k xs] set_drop_subset [of "Suc k" xs] by auto

lemma sum_list_all_zero:
  "(\<And>x. x \<in> set xs \<Longrightarrow> f x = (0::real)) \<Longrightarrow> sum_list (map f xs) = 0"
  by (induction xs) simp_all

lemma det_zero_row:
  "r \<in> set A \<Longrightarrow> \<forall>x\<in>set r. x = 0 \<Longrightarrow> det A = 0"
proof (induction A arbitrary: r rule: det.induct)
  case 1
  then show ?case by simp
next
  case (2 r0 rs)
  show ?case
  proof (cases "r = r0")
    case True
    with 2(3) have z: "\<forall>j<length r0. r0 ! j = 0" by simp
    show ?thesis unfolding det.simps by (rule sum_list_all_zero) (simp add: z)
  next
    case False
    with 2(2) have mem: "r \<in> set rs" by simp
    have d0: "det (map (drop_at j) rs) = 0" if "j \<in> set [0..<length r0]" for j
    proof (rule 2(1) [OF that])
      show "drop_at j r \<in> set (map (drop_at j) rs)" using mem by simp
      show "\<forall>x\<in>set (drop_at j r). x = 0" using 2(3) set_drop_at [of j r] by blast
    qed
    show ?thesis unfolding det.simps by (rule sum_list_all_zero) (simp add: d0)
  qed
qed


lemma length_diag_embed [simp]: "length (diag_embed d) = length d"
  by (simp add: diag_embed_def)

lemma length_diag_embed_row [simp]: "i < length d \<Longrightarrow> length (diag_embed d ! i) = length d"
  by (simp add: diag_embed_def)

lemma diag_embed_nth:
  "i < length d \<Longrightarrow> j < length d \<Longrightarrow> diag_embed d ! i ! j = (if i = j then d ! i else 0)"
  by (simp add: diag_embed_def)

lemma diag_embed_Cons:
  "diag_embed (x # xs) = (x # replicate (length xs) 0) # map ((#) 0) (diag_embed xs)"
    (is "?L = ?R")
proof (rule nth_equalityI)
  show "length ?L = length ?R" by simp
next
  fix i assume "i < length ?L"
  then have i: "i < Suc (length xs)" by simp
  show "?L ! i = ?R ! i"
  proof (rule nth_equalityI)
    show "length (?L ! i) = length (?R ! i)"
      using i by (cases i) simp_all
  next
    fix j assume "j < length (?L ! i)"
    with i have j: "j < Suc (length xs)" by simp
    show "?L ! i ! j = ?R ! i ! j"
      using i j by (cases i; cases j) (simp_all add: diag_embed_nth)
  qed
qed

lemma drop_at_0: "drop_at 0 (x # xs) = xs"
  by (simp add: drop_at_def)

lemma det_diag_embed: "det (diag_embed v) = prod_list v"
proof (induction v)
  case Nil
  then show ?case by (simp add: diag_embed_def)
next
  case (Cons x xs)
  have z: "(\<Sum>j\<leftarrow>[Suc 0..<Suc (length xs)]. (- 1) ^ j * (x # replicate (length xs) 0) ! j *
              det (map (drop_at j) (map ((#) 0) (diag_embed xs)))) = 0"
    by (rule sum_list_all_zero) (auto simp: nth_Cons')
  have "map (drop_at 0) (map ((#) 0) (diag_embed xs)) = diag_embed xs"
    by (simp add: drop_at_0 comp_def)
  then show ?case
    using z Cons by (simp add: diag_embed_Cons upt_conv_Cons [of 0] del: upt_Suc)
qed


lemma minor_diag_embed_same:
  assumes "i < length v"
  shows "map (drop_at i) (drop_at i (diag_embed v)) = diag_embed (drop_at i v)" (is "?L = ?R")
proof (rule nth_equalityI)
  show len: "length ?L = length ?R" using assms by (simp add: length_drop_at)
next
  fix r assume "r < length ?L"
  then have r: "r < length v - 1" using assms by (simp add: length_drop_at)
  let ?r' = "if r < i then r else Suc r"
  have r': "?r' < length v" using r by auto
  have row: "?L ! r = drop_at i (diag_embed v ! ?r')"
    using r assms by (simp add: length_drop_at nth_drop_at)
  show "?L ! r = ?R ! r"
  proof (rule nth_equalityI)
    show "length (?L ! r) = length (?R ! r)"
      using r r' assms by (simp add: row length_drop_at)
  next
    fix c assume "c < length (?L ! r)"
    then have c: "c < length v - 1" using r r' assms by (simp add: row length_drop_at)
    let ?c' = "if c < i then c else Suc c"
    have c': "?c' < length v" using c by auto
    have "?L ! r ! c = diag_embed v ! ?r' ! ?c'"
      unfolding row using c r' assms nth_drop_at [of i "diag_embed v ! ?r'" c] by simp
    also have "\<dots> = (if ?r' = ?c' then v ! ?r' else 0)"
      using r' c' by (simp only: diag_embed_nth)
    also have "\<dots> = (if r = c then drop_at i v ! r else 0)"
      using r assms by (auto simp: nth_drop_at)
    also have "\<dots> = ?R ! r ! c"
      using r c assms by (simp add: diag_embed_nth length_drop_at)
    finally show "?L ! r ! c = ?R ! r ! c" .
  qed
qed

lemma minor_diag_embed_other:
  assumes "i < length v" and "j < length v" and "i \<noteq> j"
  shows "det (map (drop_at i) (drop_at j (diag_embed v))) = 0"
proof (rule det_zero_row)
  let ?r = "drop_at i (diag_embed v ! i)"
  let ?k = "if i < j then i else i - 1"
  have k: "?k < length v - 1" using assms by auto
  have "drop_at j (diag_embed v) ! ?k = diag_embed v ! i"
    using assms k by (auto simp: nth_drop_at)
  moreover have "?k < length (drop_at j (diag_embed v))"
    using k assms by (simp add: length_drop_at)
  ultimately have "diag_embed v ! i \<in> set (drop_at j (diag_embed v))"
    by (metis nth_mem)
  then show "?r \<in> set (map (drop_at i) (drop_at j (diag_embed v)))" by simp
  show "\<forall>x\<in>set ?r. x = 0"
  proof
    fix x assume "x \<in> set ?r"
    then obtain c where c: "c < length ?r" and x: "x = ?r ! c" by (metis in_set_conv_nth)
    from c assms have c': "c < length v - 1" by (simp add: length_drop_at)
    then have "?r ! c = diag_embed v ! i ! (if c < i then c else Suc c)"
      using assms nth_drop_at [of i "diag_embed v ! i" c] by simp
    also have "\<dots> = 0" using c' assms by (auto simp: diag_embed_nth)
    finally show "x = 0" using x by simp
  qed
qed

lemma prod_list_drop_at:
  fixes v :: "real list"
  assumes "i < length v" and "v ! i \<noteq> 0"
  shows "prod_list (drop_at i v) = prod_list v / v ! i"
proof -
  have "v = take i v @ v ! i # drop (Suc i) v" using assms(1) by (simp add: id_take_nth_drop)
  then have "prod_list v = prod_list (take i v) * (v ! i * prod_list (drop (Suc i) v))"
    by (metis prod_list.append prod_list.Cons)
  then show ?thesis using assms(2) by (simp add: drop_at_def)
qed

lemma torch_inverse_diag_embed:
  "torch_inverse (diag_embed v) =
     (if 0 \<in> set v then Inl RuntimeError else Inr (diag_embed (map inverse v)))"
proof (cases "0 \<in> set v")
  case True
  then show ?thesis by (simp add: torch_inverse_def det_diag_embed prod_list_zero_iff)
next
  case False
  then have nz: "prod_list v \<noteq> 0" by (simp add: prod_list_zero_iff)
  have "map (\<lambda>i. map (\<lambda>j. cofactor (diag_embed v) j i / prod_list v) [0..<length v]) [0..<length v]
        = diag_embed (map inverse v)" (is "?L = ?R")
  proof (rule nth_equalityI)
    show "length ?L = length ?R" by simp
  next
    fix i assume "i < length ?L"
    then have i: "i < length v" by simp
    show "?L ! i = ?R ! i"
    proof (rule nth_equalityI)
      show "length (?L ! i) = length (?R ! i)" using i by simp
    next
      fix j assume "j < length (?L ! i)"
      with i have j: "j < length v" by simp
      have vi: "v ! i \<noteq> 0" using False i by (metis nth_mem)
      have "cofactor (diag_embed v) j i / prod_list v = (if i = j then inverse (v ! i) else 0)"
      proof (cases "i = j")
        case True
        then show ?thesis
          using i vi nz
          by (simp add: cofactor_def minor_diag_embed_same det_diag_embed prod_list_drop_at
              field_simps flip: mult_2)
      next
        case False
        then show ?thesis using i j by (simp add: cofactor_def minor_diag_embed_other)
      qed
      then show "?L ! i ! j = ?R ! i ! j" using i j by (simp add: diag_embed_nth)
    qed
  qed
  then show ?thesis using False nz by (simp add: torch_inverse_def det_diag_embed)
qed

subsection \<open>The relaxation factors\<close>

lemma c_root_lower:
  assumes "T \<noteq> 0" and "a \<le> b"
  shows "\<exists>c. c_root k a b T = Inr c \<and> a \<le> c \<and> c \<le> b"
proof -
  let ?t = "cos (pi * real_of_int (2 * k + 1) / real_of_int (2 * T))"
  have lo: "-1 \<le> ?t" and hi: "?t \<le> 1" by simp_all
  have h: "0 \<le> (b - a) / 2" using assms(2) by simp
  have "(b - a) / 2 * ?t \<le> (b - a) / 2 * 1"
    by (rule mult_left_mono [OF hi h])
  moreover have "(b - a) / 2 * (-1) \<le> (b - a) / 2 * ?t"
    by (rule mult_left_mono [OF lo h])
  ultimately have "a \<le> (a + b) / 2 + (b - a) / 2 * ?t" "(a + b) / 2 + (b - a) / 2 * ?t \<le> b"
    by (simp_all add: field_simps)
  then show ?thesis using assms(1) by (simp add: c_root_def)
qed

text \<open>
  C5. For spectral bounds with \<open>lmin + lmax > 0\<close> the constant SOR factor is computed
  without error and equals \<open>2 / (lmin + lmax)\<close>.
\<close>

theorem omega_opt_value:
  "0 < lmin + lmax \<Longrightarrow> omega_opt lmin lmax = Inr (2 / (lmin + lmax))"
  by (simp add: omega_opt_def add.commute)

theorem omega_opt_value_witness:
  "(0::real) < 1 + 3 \<and> omega_opt 1 3 = Inr (1 / 2)"
  using omega_opt_value [of 1 3] by simp

text \<open>
  C2. For an iteration index \<open>k\<close>, a positive period \<open>T\<close> and bounds \<open>0 < lmin \<le> lmax\<close> the
  Chebyshev step is computed without error, it is the reciprocal of the root
  \<open>c (k mod T)\<close> with \<open>c j = (lmin + lmax)/2 + ((lmax - lmin)/2) cos (\<pi> (2j+1) / (2T))\<close>,
  and it is periodic: the factor at \<open>k\<close> is the factor at \<open>k mod T\<close>.
\<close>

theorem chebychev_gamma_periodic:
  assumes "0 < T" and "0 < lmin" and "lmin \<le> lmax"
  shows "chebychev_gamma k lmin lmax T =
           Inr (1 / ((lmin + lmax) / 2 + ((lmax - lmin) / 2) *
                       cos (pi * real_of_int (2 * (k mod T) + 1) / real_of_int (2 * T))))
         \<and> chebychev_gamma k lmin lmax T = chebychev_gamma (k mod T) lmin lmax T"
proof -
  from assms have T: "T \<noteq> 0" by simp
  obtain c where c: "c_root (k mod T) lmin lmax T = Inr c" and pos: "lmin \<le> c"
    using c_root_lower [OF T assms(3)] by blast
  from pos assms(2) have "c \<noteq> 0" by simp
  moreover from c T have "c = (lmin + lmax) / 2 + ((lmax - lmin) / 2) *
                       cos (pi * real_of_int (2 * (k mod T) + 1) / real_of_int (2 * T))"
    by (simp add: c_root_def)
  ultimately show ?thesis using c T by (simp add: chebychev_gamma_def)
qed

theorem chebychev_gamma_periodic_witness:
  "(0::int) < 1 \<and> (0::real) < 1 \<and> (1::real) \<le> 3 \<and>
   chebychev_gamma 5 1 3 1 = Inr (1 / 2) \<and> chebychev_gamma 5 1 3 1 = chebychev_gamma 0 1 3 1"
  using chebychev_gamma_periodic [of 1 1 3 5] by auto

subsection \<open>The decomposition of the constructors\<close>

lemma square_matrixD:
  assumes "square_matrix n P"
  shows "length P = n" and "\<And>i. i < n \<Longrightarrow> length (P ! i) = n"
  using assms by (simp_all add: square_matrix_def list_all_length)

lemma square_matrixI:
  "length P = n \<Longrightarrow> (\<And>i. i < n \<Longrightarrow> length (P ! i) = n) \<Longrightarrow> square_matrix n P"
  by (simp add: square_matrix_def list_all_length)

lemma square_diag_embed: "square_matrix (length d) (diag_embed d)"
  by (rule square_matrixI) simp_all

lemma length_torch_diagonal [simp]: "length (torch_diagonal P) = length P"
  by (simp add: torch_diagonal_def)

lemma torch_diagonal_nth: "i < length P \<Longrightarrow> torch_diagonal P ! i = P ! i ! i"
  by (simp add: torch_diagonal_def)

lemma zero_in_torch_diagonal: "0 \<in> set (torch_diagonal P) \<longleftrightarrow> (\<exists>i<length P. P ! i ! i = 0)"
  by (auto simp: torch_diagonal_def)

lemma mat_sub_nth:
  assumes "square_matrix n A" and "square_matrix n B" and "i < n" and "j < n"
  shows "mat_sub A B ! i ! j = A ! i ! j - B ! i ! j"
  using assms by (simp add: mat_sub_def square_matrixD)

lemma square_mat_sub:
  assumes "square_matrix n A" and "square_matrix n B"
  shows "square_matrix n (mat_sub A B)"
  using assms by (intro square_matrixI) (simp_all add: mat_sub_def square_matrixD)

lemma mat_add_nth:
  assumes "square_matrix n A" and "square_matrix n B" and "i < n" and "j < n"
  shows "mat_add A B ! i ! j = A ! i ! j + B ! i ! j"
  using assms by (simp add: mat_add_def square_matrixD)

lemma square_mat_add:
  assumes "square_matrix n A" and "square_matrix n B"
  shows "square_matrix n (mat_add A B)"
  using assms by (intro square_matrixI) (simp_all add: mat_add_def square_matrixD)

lemma square_matrix_eqI:
  assumes "square_matrix n A" and "square_matrix n B"
    and "\<And>i j. i < n \<Longrightarrow> j < n \<Longrightarrow> A ! i ! j = B ! i ! j"
  shows "A = B"
proof (rule nth_equalityI)
  show "length A = length B" using assms(1,2) by (simp add: square_matrixD)
next
  fix i assume "i < length A"
  then have i: "i < n" using assms(1) by (simp add: square_matrixD)
  show "A ! i = B ! i"
    by (rule nth_equalityI) (use i assms in \<open>simp_all add: square_matrixD\<close>)
qed

lemma Jacobi_init_eq:
  "Jacobi_init P b =
     (if 0 \<in> set (torch_diagonal P) then Inl RuntimeError
      else Inr \<lparr>self_R = mat_sub P (diag_embed (torch_diagonal P)),
                self_Dinv = diag_embed (map inverse (torch_diagonal P)), self_b = b\<rparr>)"
  by (simp add: Jacobi_init_def torch_inverse_diag_embed)

lemma SOR_Jacobi_init_eq:
  "SOR_Jacobi_init P b w =
     (if 0 \<in> set (torch_diagonal P) then Inl RuntimeError
      else Inr \<lparr>self_R = mat_sub P (diag_embed (torch_diagonal P)),
                self_Dinv = diag_embed (map inverse (torch_diagonal P)), self_b = b,
                self_omega = w\<rparr>)"
  by (simp add: SOR_Jacobi_init_def torch_inverse_diag_embed)

lemma Chebychev_SOR_Jacobi_init_eq:
  "Chebychev_SOR_Jacobi_init P b =
     (if 0 \<in> set (torch_diagonal P) then Inl RuntimeError
      else Inr \<lparr>self_R = mat_sub P (diag_embed (torch_diagonal P)),
                self_Dinv = diag_embed (map inverse (torch_diagonal P)), self_b = b\<rparr>)"
  by (simp add: Chebychev_SOR_Jacobi_init_def torch_inverse_diag_embed)

lemma square_init_D:
  "square_matrix n P \<Longrightarrow> square_matrix n (diag_embed (torch_diagonal P))"
  using square_diag_embed [of "torch_diagonal P"] by (simp add: square_matrixD)

lemma square_init_Dinv:
  "square_matrix n P \<Longrightarrow> square_matrix n (diag_embed (map inverse (torch_diagonal P)))"
  using square_diag_embed [of "map inverse (torch_diagonal P)"] by (simp add: square_matrixD)

lemma square_init_R:
  "square_matrix n P \<Longrightarrow> square_matrix n (mat_sub P (diag_embed (torch_diagonal P)))"
  by (simp add: square_mat_sub square_init_D)

lemma init_D_nth:
  assumes "square_matrix n P" and "i < n" and "j < n"
  shows "diag_embed (torch_diagonal P) ! i ! j = (if i = j then P ! i ! i else 0)"
  using assms by (simp add: diag_embed_nth torch_diagonal_nth square_matrixD)

lemma init_Dinv_nth:
  assumes "square_matrix n P" and "i < n" and "j < n"
  shows "diag_embed (map inverse (torch_diagonal P)) ! i ! j = (if i = j then 1 / P ! i ! i else 0)"
  using assms by (simp add: diag_embed_nth torch_diagonal_nth square_matrixD inverse_eq_divide)

lemma init_R_nth:
  assumes "square_matrix n P" and "i < n" and "j < n"
  shows "mat_sub P (diag_embed (torch_diagonal P)) ! i ! j = (if i = j then 0 else P ! i ! j)"
  using assms by (simp add: mat_sub_nth [OF assms(1) square_init_D [OF assms(1)]] init_D_nth)

lemma nonzero_diagonal:
  "square_matrix n P \<Longrightarrow> \<forall>i<n. P ! i ! i \<noteq> 0 \<Longrightarrow> 0 \<notin> set (torch_diagonal P)"
  by (simp add: zero_in_torch_diagonal square_matrixD)

text \<open>
  C3. For an \<open>n \<times> n\<close> matrix \<open>P\<close> whose diagonal entries are all non-zero, each of the
  three constructors succeeds and stores the same decomposition: \<open>Dinv\<close> is the diagonal
  matrix whose \<open>i\<close>-th diagonal entry is \<open>1 / P[i][i]\<close>, \<open>R\<close> is \<open>P\<close> with its diagonal
  zeroed, and \<open>D + R\<close>, with \<open>D\<close> the diagonal part of \<open>P\<close>, is \<open>P\<close> again.
\<close>

theorem matrix_splitter_decomposition:
  assumes "square_matrix n P" and "\<forall>i<n. P ! i ! i \<noteq> 0"
  shows "\<exists>R Di.
           Jacobi_init P b = Inr \<lparr>self_R = R, self_Dinv = Di, self_b = b\<rparr>
         \<and> SOR_Jacobi_init P b w = Inr \<lparr>self_R = R, self_Dinv = Di, self_b = b, self_omega = w\<rparr>
         \<and> Chebychev_SOR_Jacobi_init P b = Inr \<lparr>self_R = R, self_Dinv = Di, self_b = b\<rparr>
         \<and> square_matrix n Di \<and> square_matrix n R
         \<and> (\<forall>i<n. \<forall>j<n. Di ! i ! j = (if i = j then 1 / P ! i ! i else 0))
         \<and> (\<forall>i<n. \<forall>j<n. R ! i ! j = (if i = j then 0 else P ! i ! j))
         \<and> mat_add (diag_embed (torch_diagonal P)) R = P"
proof -
  let ?D = "diag_embed (torch_diagonal P)"
  let ?R = "mat_sub P ?D"
  let ?Di = "diag_embed (map inverse (torch_diagonal P))"
  note sqD = square_init_D [OF assms(1)] and sqR = square_init_R [OF assms(1)]
  have "mat_add ?D ?R = P"
  proof (rule square_matrix_eqI [OF square_mat_add [OF sqD sqR] assms(1)])
    fix i j assume "i < n" "j < n"
    then show "mat_add ?D ?R ! i ! j = P ! i ! j"
      by (simp add: mat_add_nth [OF sqD sqR] init_D_nth [OF assms(1)] init_R_nth [OF assms(1)])
  qed
  then show ?thesis
    using nonzero_diagonal [OF assms] sqR square_init_Dinv [OF assms(1)]
    by (simp add: Jacobi_init_eq SOR_Jacobi_init_eq Chebychev_SOR_Jacobi_init_eq
        init_Dinv_nth [OF assms(1)] init_R_nth [OF assms(1)])
qed

theorem matrix_splitter_decomposition_witness:
  "square_matrix 2 [[2, 1], [1, 4]] \<and>
   [[2, 1], [1, 4::real]] ! 0 ! 0 \<noteq> 0 \<and> [[2, 1], [1, 4::real]] ! 1 ! 1 \<noteq> 0 \<and>
   (\<exists>R Di.
      Jacobi_init [[2, 1], [1, 4]] [0, 0] = Inr \<lparr>self_R = R, self_Dinv = Di, self_b = [0, 0]\<rparr>
    \<and> R ! 0 ! 0 = 0 \<and> R ! 0 ! 1 = 1 \<and> R ! 1 ! 0 = 1 \<and> R ! 1 ! 1 = 0
    \<and> Di ! 0 ! 0 = 1 / 2 \<and> Di ! 0 ! 1 = 0 \<and> Di ! 1 ! 0 = 0 \<and> Di ! 1 ! 1 = 1 / 4
    \<and> mat_add (diag_embed (torch_diagonal [[2, 1], [1, 4]])) R = [[2, 1], [1, 4]])"
proof -
  have sq: "square_matrix 2 [[2, 1], [1, 4]]" by (simp add: square_matrix_def)
  have nz: "\<forall>i<2. [[2, 1], [1, 4::real]] ! i ! i \<noteq> 0" by (simp add: numeral_2_eq_2 All_less_Suc)
  from matrix_splitter_decomposition [OF sq nz, of "[0, 0]" 1]
  obtain R Di where init: "Jacobi_init [[2, 1], [1, 4]] [0, 0] = Inr \<lparr>self_R = R, self_Dinv = Di, self_b = [0, 0]\<rparr>"
    and Di: "\<forall>i<2. \<forall>j<2. Di ! i ! j = (if i = j then 1 / [[2, 1], [1, 4::real]] ! i ! i else 0)"
    and R: "\<forall>i<2. \<forall>j<2. R ! i ! j = (if i = j then 0 else [[2, 1], [1, 4::real]] ! i ! j)"
    and add: "mat_add (diag_embed (torch_diagonal [[2, 1], [1, 4]])) R = [[2, 1], [1, 4]]"
    by blast
  have "R ! 0 ! 0 = 0" "R ! 0 ! 1 = 1" "R ! 1 ! 0 = 1" "R ! 1 ! 1 = 0"
    using R by simp_all
  moreover have "Di ! 0 ! 0 = 1 / 2" "Di ! 0 ! 1 = 0" "Di ! 1 ! 0 = 0" "Di ! 1 ! 1 = 1 / 4"
    using Di by simp_all
  ultimately show ?thesis using sq init add by simp
qed

text \<open>
  C6. For a square matrix \<open>P\<close> with a zero on its diagonal, the decomposition fails: the
  inversion of the singular diagonal part raises (the error the specification calls
  SingularDiagonalError is the RuntimeError of \<^verbatim>\<open>torch.inverse\<close>), so no constructor
  returns a solver with infinite entries, and each plot function is aborted.
\<close>

theorem singular_diagonal_raises:
  assumes "square_matrix n P" and "i < n" and "P ! i ! i = 0"
  shows "Jacobi_init P b = Inl RuntimeError
       \<and> SOR_Jacobi_init P b w = Inl RuntimeError
       \<and> Chebychev_SOR_Jacobi_init P b = Inl RuntimeError
       \<and> plot_pure_jacobi G P b g = Inl RuntimeError
       \<and> plot_sor_jacobi G P b g =
           Inl (if global_lmax G + global_lmin G = 0 then ZeroDivisionError else RuntimeError)
       \<and> plot_chebychev_sor_jacobi G T P b g = Inl RuntimeError"
proof -
  have "0 \<in> set (torch_diagonal P)"
    using assms by (auto simp: zero_in_torch_diagonal square_matrixD)
  then show ?thesis
    by (simp add: Jacobi_init_eq SOR_Jacobi_init_eq Chebychev_SOR_Jacobi_init_eq
        plot_pure_jacobi_def plot_sor_jacobi_def plot_chebychev_sor_jacobi_def omega_opt_def)
qed

theorem singular_diagonal_raises_witness:
  "square_matrix 2 [[2, 1], [1, 0]] \<and> (1::nat) < 2 \<and> [[2, 1], [1, 0::real]] ! 1 ! 1 = 0 \<and>
   Jacobi_init [[2, 1], [1, 0]] [0, 0] = Inl RuntimeError \<and>
   plot_pure_jacobi \<lparr>global_max_itr = 25, global_lmin = 1, global_lmax = 3, global_q = [0, 0]\<rparr>
     [[2, 1], [1, 0]] [0, 0] (\<lambda>k. 1) = Inl RuntimeError"
proof -
  have sq: "square_matrix 2 [[2, 1], [1, 0]]" by (simp add: square_matrix_def)
  have i: "(1::nat) < 2" by simp
  have z: "[[2, 1], [1, 0::real]] ! 1 ! 1 = 0" by simp
  show ?thesis
    using sq i z singular_diagonal_raises [OF sq i z, of "[0, 0]"] by blast
qed

subsection \<open>The loops, step by step\<close>

lemma range_py_0 [simp]: "range_py 0 = []"
  by (simp add: range_py_def)

lemma range_py_Suc: "range_py (int k + 1) = range_py (int k) @ [int k]"
proof -
  have "nat (int k + 1) = Suc k" by simp
  then show ?thesis by (simp add: range_py_def)
qed

lemma range_py_int: "range_py (int k) = map int [0..<k]"
  by (simp add: range_py_def)


subsection \<open>A diagonal system with zero right-hand side\<close>

lemma dot_zero_left: "sum_list (map2 (*) (replicate n (0::real)) x) = 0"
  by (rule sum_list_all_zero) (auto dest: set_zip_leftD)

lemma dot_zero_right: "sum_list (map2 (*) row (replicate n (0::real))) = 0"
  by (rule sum_list_all_zero) (auto dest: set_zip_rightD)

lemma matvec_zero_matrix: "matvec (replicate n (replicate m 0)) x = replicate n 0"
  by (simp add: matvec_def dot_zero_left map_replicate_const)

lemma matvec_zero_vector: "matvec A (replicate n 0) = replicate (length A) 0"
  by (simp add: matvec_def dot_zero_right map_replicate_const)

lemma vec_sub_zero: "vec_sub (replicate n 0) (replicate n 0) = replicate n 0"
  by (simp add: vec_sub_def zip_replicate)

lemma Jacobi_loop_Suc:
  "Jacobi_loop self (int k + 1) x0 =
     matvec (self_Dinv self) (vec_sub (self_b self) (matvec (self_R self) (Jacobi_loop self (int k) x0)))"
  by (simp add: Jacobi_loop_def range_py_Suc)

text \<open>
  C8. For a diagonal \<open>n \<times> n\<close> matrix \<open>P\<close> with non-zero diagonal and \<open>q = 0\<close>, the constructor
  succeeds, and from every starting iterate the plain Jacobi loop returns the zero vector
  after one step and after every larger number of steps; so does the whole method, whatever
  the generator delivers.
\<close>

theorem Jacobi_diagonal_system_one_step:
  assumes "square_matrix n P"
    and "\<forall>i<n. P ! i ! i \<noteq> 0"
    and "\<forall>i<n. \<forall>j<n. i \<noteq> j \<longrightarrow> P ! i ! j = 0"
    and "length x0 = n"
  shows "\<exists>jacobi. Jacobi_init P (replicate n 0) = Inr jacobi
           \<and> Jacobi_loop jacobi 1 x0 = replicate n 0
           \<and> (\<forall>k\<ge>1. Jacobi_loop jacobi k x0 = replicate n 0)
           \<and> (\<forall>k\<ge>1. fst (Jacobi_forward jacobi k g) = replicate n 0)"
proof -
  let ?R = "mat_sub P (diag_embed (torch_diagonal P))"
  let ?Di = "diag_embed (map inverse (torch_diagonal P))"
  let ?J = "\<lparr>self_R = ?R, self_Dinv = ?Di, self_b = replicate n 0\<rparr>"
  have init: "Jacobi_init P (replicate n 0) = Inr ?J"
    using nonzero_diagonal [OF assms(1,2)] by (simp add: Jacobi_init_eq)
  have sqz: "square_matrix n (replicate n (replicate n 0))"
    by (simp add: square_matrix_def list_all_length)
  have "?R = replicate n (replicate n 0)"
    by (rule square_matrix_eqI [OF square_init_R [OF assms(1)] sqz])
      (use assms(3) in \<open>simp add: init_R_nth [OF assms(1)]\<close>)
  then have step: "matvec ?Di (vec_sub (replicate n 0) (matvec ?R x)) = replicate n 0" for x
    using assms(1)
    by (simp add: matvec_zero_matrix vec_sub_zero matvec_zero_vector square_matrixD)
  have loop: "Jacobi_loop ?J k x = replicate n 0" if "1 \<le> k" for k x
  proof -
    from that have "k = int (nat (k - 1)) + 1" by simp
    then obtain m where k: "k = int m + 1" ..
    show ?thesis unfolding k Jacobi_loop_Suc using step by simp
  qed
  have "fst (Jacobi_forward ?J k g) = replicate n 0" if "1 \<le> k" for k
    using loop [OF that] by (simp add: Jacobi_forward_def torch_normal_def)
  with init loop show ?thesis by simp
qed

theorem Jacobi_diagonal_system_one_step_witness:
  "square_matrix 2 [[2, 0], [0, 2]] \<and>
   [[2, 0], [0, 2::real]] ! 0 ! 0 \<noteq> 0 \<and> [[2, 0], [0, 2::real]] ! 1 ! 1 \<noteq> 0 \<and>
   [[2, 0], [0, 2::real]] ! 0 ! 1 = 0 \<and> [[2, 0], [0, 2::real]] ! 1 ! 0 = 0 \<and>
   length [5, - 3 :: real] = 2 \<and>
   (\<exists>jacobi. Jacobi_init [[2, 0], [0, 2]] [0, 0] = Inr jacobi
       \<and> Jacobi_loop jacobi 1 [5, - 3] = [0, 0]
       \<and> (\<forall>k\<ge>1. Jacobi_loop jacobi k [5, - 3] = [0, 0])
       \<and> (\<forall>k\<ge>1. fst (Jacobi_forward jacobi k (\<lambda>i. real i)) = [0, 0]))"
proof -
  have sq: "square_matrix 2 [[2, 0], [0, 2]]" by (simp add: square_matrix_def)
  have nz: "\<forall>i<2. [[2, 0], [0, 2::real]] ! i ! i \<noteq> 0" by (simp add: numeral_2_eq_2 All_less_Suc)
  have dg: "\<forall>i<2. \<forall>j<2. i \<noteq> j \<longrightarrow> [[2, 0], [0, 2::real]] ! i ! j = 0"
    by (simp add: numeral_2_eq_2 All_less_Suc)
  have len: "length [5, - 3 :: real] = 2" by simp
  have rep: "replicate 2 (0::real) = [0, 0]" by (simp add: numeral_2_eq_2)
  show ?thesis
    using sq Jacobi_diagonal_system_one_step [OF sq nz dg len, of "\<lambda>i. real i", unfolded rep]
    by simp
qed

subsection \<open>The runs of the plot functions\<close>

lemma torch_normal_eq: "torch_normal n g = (map g [0..<n], \<lambda>k. g (n + k))"
  by (simp add: torch_normal_def)

lemma draw_block: "map (\<lambda>k. g (m * n + k)) [0..<n] = map g [m * n..<m * n + n]"
proof -
  have "[m * n..<m * n + n] = map (\<lambda>k. k + m * n) [0..<n]"
    by (simp add: map_add_upt add.commute)
  then show ?thesis by (simp add: comp_def add.commute)
qed

lemma Jacobi_forward_eq:
  "length (self_R self) = n \<Longrightarrow>
   Jacobi_forward self num_itr g = (Jacobi_loop self num_itr (map g [0..<n]), \<lambda>k. g (n + k))"
  by (simp add: Jacobi_forward_def torch_normal_def Let_def)

lemma SOR_Jacobi_forward_eq:
  "length (self_R self) = n \<Longrightarrow>
   SOR_Jacobi_forward self num_itr g = (SOR_Jacobi_loop self num_itr (map g [0..<n]), \<lambda>k. g (n + k))"
  by (simp add: SOR_Jacobi_forward_def torch_normal_def Let_def)

lemma Chebychev_SOR_Jacobi_forward_eq:
  "length (self_R self) = n \<Longrightarrow>
   Chebychev_SOR_Jacobi_forward G self num_itr T g =
     (case Chebychev_SOR_Jacobi_loop G self num_itr T (map g [0..<n]) of
        Inl e \<Rightarrow> Inl e
      | Inr x \<Rightarrow> Inr (x, \<lambda>k. g (n + k)))"
  by (simp add: Chebychev_SOR_Jacobi_forward_def torch_normal_def Let_def)

lemma tracker_fold:
  "fold (\<lambda>i (norm_list, g). (norm_list @ [f i (map g [0..<n])], \<lambda>k. g (n + k)))
        (map int [0..<m]) (acc, g0)
   = (acc @ map (\<lambda>i. f (int i) (map g0 [i * n..<i * n + n])) [0..<m], \<lambda>k. g0 (m * n + k))"
proof (induction m)
  case 0
  then show ?case by simp
next
  case (Suc m)
  have "(\<lambda>k. g0 (m * n + (n + k))) = (\<lambda>k. g0 (n + m * n + k))"
    by (simp add: add.assoc add.left_commute)
  then show ?case using Suc by (simp add: draw_block)
qed

lemma tracker_fold_error:
  assumes "\<And>i x. \<exists>y. f i x = Inr y"
  shows "fold (\<lambda>i acc. case acc of
                  Inl e \<Rightarrow> Inl e
                | Inr (norm_list, g) \<Rightarrow>
                    (case (case f i (map g [0..<n]) of Inl e \<Rightarrow> Inl e
                                                   | Inr x \<Rightarrow> Inr (x, \<lambda>k. g (n + k))) of
                       Inl e \<Rightarrow> Inl e
                     | Inr (r, g') \<Rightarrow> Inr (norm_list @ [torch_norm r], g')))
        (map int [0..<m]) (Inr (acc, g0))
   = Inr (acc @ map (\<lambda>i. torch_norm (projr (f (int i) (map g0 [i * n..<i * n + n])))) [0..<m],
          \<lambda>k. g0 (m * n + k))"
proof (induction m)
  case 0
  then show ?case by simp
next
  case (Suc m)
  obtain y where y: "f (int m) (map g0 [m * n..<m * n + n]) = Inr y"
    using assms by blast
  have "(\<lambda>k. g0 (m * n + (n + k))) = (\<lambda>k. g0 (n + m * n + k))"
    by (simp add: add.assoc add.left_commute)
  then show ?case using Suc y by (simp add: draw_block)
qed

lemma length_init_R: "length (mat_sub P (diag_embed (torch_diagonal P))) = length P"
  by (simp add: mat_sub_def)

lemma plot_pure_jacobi_eq:
  assumes "Jacobi_init P q = Inr jacobi"
  shows "plot_pure_jacobi G P q g =
     Inr (map (\<lambda>i. torch_norm (Jacobi_loop jacobi (int i) (map g [i * length P..<i * length P + length P])))
              [0..<nat (global_max_itr G)],
          \<lambda>k. g (nat (global_max_itr G) * length P + k))"
proof -
  from assms have len: "length (self_R jacobi) = length P"
    by (auto simp: Jacobi_init_eq length_init_R split: if_splits)
  have "plot_pure_jacobi G P q g =
      Inr (fold (\<lambda>i (norm_list, g).
                   (norm_list @ [torch_norm (Jacobi_loop jacobi i (map g [0..<length P]))],
                    \<lambda>k. g (length P + k)))
                (map int [0..<nat (global_max_itr G)]) ([], g))"
    by (simp add: plot_pure_jacobi_def assms Jacobi_forward_eq [OF len] range_py_def)
  then show ?thesis
    by (simp add: tracker_fold [of "\<lambda>i x. torch_norm (Jacobi_loop jacobi i x)" "length P" _ "[]" g])
qed

lemma plot_sor_jacobi_eq:
  assumes "omega_opt (global_lmin G) (global_lmax G) = Inr w"
    and "SOR_Jacobi_init P (global_q G) w = Inr sor_jacobi"
  shows "plot_sor_jacobi G P b g =
     Inr (map (\<lambda>i. torch_norm (SOR_Jacobi_loop sor_jacobi (int i) (map g [i * length P..<i * length P + length P])))
              [0..<nat (global_max_itr G)],
          \<lambda>k. g (nat (global_max_itr G) * length P + k))"
proof -
  from assms(2) have len: "length (self_R sor_jacobi) = length P"
    by (auto simp: SOR_Jacobi_init_eq length_init_R split: if_splits)
  have "plot_sor_jacobi G P b g =
      Inr (fold (\<lambda>i (norm_list, g).
                   (norm_list @ [torch_norm (SOR_Jacobi_loop sor_jacobi i (map g [0..<length P]))],
                    \<lambda>k. g (length P + k)))
                (map int [0..<nat (global_max_itr G)]) ([], g))"
    by (simp add: plot_sor_jacobi_def assms SOR_Jacobi_forward_eq [OF len] range_py_def)
  then show ?thesis
    by (simp add: tracker_fold [of "\<lambda>i x. torch_norm (SOR_Jacobi_loop sor_jacobi i x)" "length P" _ "[]" g])
qed

lemma Chebychev_SOR_Jacobi_loop_Suc:
  "Chebychev_SOR_Jacobi_loop G self (int k + 1) T x0 =
     (case Chebychev_SOR_Jacobi_loop G self (int k) T x0 of
        Inl e \<Rightarrow> Inl e
      | Inr x \<Rightarrow> Chebychev_SOR_Jacobi_body G self T (int k) x)"
  by (simp add: Chebychev_SOR_Jacobi_loop_def range_py_Suc)

lemma chebychev_gamma_succeeds:
  assumes "0 < T" and "0 < lo" and "lo \<le> hi"
  shows "\<exists>gamma. chebychev_gamma i lo hi T = Inr gamma"
proof -
  from assms have T: "T \<noteq> 0" by simp
  obtain c where c: "c_root (i mod T) lo hi T = Inr c" and pos: "lo \<le> c"
    using c_root_lower [OF T assms(3)] by blast
  from pos assms(2) have "c \<noteq> 0" by simp
  with c T show ?thesis by (simp add: chebychev_gamma_def)
qed

lemma Chebychev_SOR_Jacobi_loop_succeeds:
  assumes "0 < T" and "0 < global_lmin G" and "global_lmin G \<le> global_lmax G"
  shows "\<exists>y. Chebychev_SOR_Jacobi_loop G self num_itr T x0 = Inr y"
proof -
  have steps: "\<exists>y. Chebychev_SOR_Jacobi_loop G self (int k) T x0 = Inr y" for k
  proof (induction k)
    case 0
    then show ?case by (simp add: Chebychev_SOR_Jacobi_loop_def)
  next
    case (Suc k)
    then obtain x where x: "Chebychev_SOR_Jacobi_loop G self (int k) T x0 = Inr x" by blast
    obtain gamma where "chebychev_gamma (int k) (global_lmin G) (global_lmax G) T = Inr gamma"
      using chebychev_gamma_succeeds [OF assms] by blast
    then have "\<exists>y. Chebychev_SOR_Jacobi_body G self T (int k) x = Inr y"
      by (simp add: Chebychev_SOR_Jacobi_body_def)
    moreover have "Chebychev_SOR_Jacobi_loop G self (int (Suc k)) T x0 =
                   Chebychev_SOR_Jacobi_body G self T (int k) x"
      unfolding Chebychev_SOR_Jacobi_loop_def range_py_int
      using x [unfolded Chebychev_SOR_Jacobi_loop_def range_py_int] by simp
    ultimately show ?case by simp
  qed
  have "Chebychev_SOR_Jacobi_loop G self num_itr T x0 =
        Chebychev_SOR_Jacobi_loop G self (int (nat num_itr)) T x0"
    by (simp add: Chebychev_SOR_Jacobi_loop_def range_py_def)
  then show ?thesis using steps [of "nat num_itr"] by (simp only:)
qed

lemma plot_chebychev_sor_jacobi_eq:
  assumes "Chebychev_SOR_Jacobi_init P (global_q G) = Inr cheb"
    and "0 < T" and "0 < global_lmin G" and "global_lmin G \<le> global_lmax G"
  shows "plot_chebychev_sor_jacobi G T P b g =
     Inr (map (\<lambda>i. torch_norm (projr (Chebychev_SOR_Jacobi_loop G cheb (int i) T
                                      (map g [i * length P..<i * length P + length P]))))
              [0..<nat (global_max_itr G)],
          \<lambda>k. g (nat (global_max_itr G) * length P + k))"
proof -
  from assms(1) have len: "length (self_R cheb) = length P"
    by (auto simp: Chebychev_SOR_Jacobi_init_eq length_init_R split: if_splits)
  have "plot_chebychev_sor_jacobi G T P b g =
      fold (\<lambda>i acc. case acc of
                  Inl e \<Rightarrow> Inl e
                | Inr (norm_list, g) \<Rightarrow>
                    (case (case Chebychev_SOR_Jacobi_loop G cheb i T (map g [0..<length P]) of
                             Inl e \<Rightarrow> Inl e
                           | Inr x \<Rightarrow> Inr (x, \<lambda>k. g (length P + k))) of
                       Inl e \<Rightarrow> Inl e
                     | Inr (r, g') \<Rightarrow> Inr (norm_list @ [torch_norm r], g')))
           (map int [0..<nat (global_max_itr G)]) (Inr ([], g))"
    by (simp add: plot_chebychev_sor_jacobi_def assms(1) Chebychev_SOR_Jacobi_forward_eq [OF len]
        range_py_def)
  then show ?thesis
    by (simp add: tracker_fold_error [of "\<lambda>i x. Chebychev_SOR_Jacobi_loop G cheb i T x" "length P" _ "[]" g,
        OF Chebychev_SOR_Jacobi_loop_succeeds [OF assms(2-4)]])
qed

subsection \<open>The error curve\<close>

lemma vec_sub_zero_right: "length x = n \<Longrightarrow> vec_sub x (replicate n 0) = x"
  by (rule nth_equalityI) (simp_all add: vec_sub_def)

lemma length_matvec [simp]: "length (matvec A x) = length A"
  by (simp add: matvec_def)

lemma length_Jacobi_loop:
  assumes "length (self_Dinv self) = n" and "length x0 = n"
  shows "length (Jacobi_loop self num_itr x0) = n"
proof -
  have "length (fold (\<lambda>i x. matvec (self_Dinv self) (vec_sub (self_b self) (matvec (self_R self) x)))
                  is x0) = n" for "is" :: "int list"
    using assms by (induction "is" rule: rev_induct) simp_all
  then show ?thesis by (simp add: Jacobi_loop_def)
qed

lemma length_relaxed: "length tmp = length x \<Longrightarrow> length (vec_add x (scal c (vec_sub tmp x))) = length x"
  by (simp add: vec_add_def scal_def vec_sub_def)

lemma length_SOR_Jacobi_loop:
  assumes "length (self_Dinv self) = n" and "length x0 = n"
  shows "length (SOR_Jacobi_loop self num_itr x0) = n"
proof -
  have "length (fold (\<lambda>i x. let tmp = matvec (self_Dinv self) (vec_sub (self_b self) (matvec (self_R self) x))
                           in vec_add x (scal (self_omega self) (vec_sub tmp x)))
                  is x0) = n" for "is" :: "int list"
    using assms by (induction "is" rule: rev_induct) (simp_all add: length_relaxed)
  then show ?thesis by (simp add: SOR_Jacobi_loop_def)
qed

lemma length_Chebychev_SOR_Jacobi_loop:
  assumes "length (self_Dinv self) = n" and "length x0 = n"
    and "Chebychev_SOR_Jacobi_loop G self num_itr T x0 = Inr y"
  shows "length y = n"
proof -
  have "fold (\<lambda>i r. case r of Inl e \<Rightarrow> Inl e | Inr x \<Rightarrow> Chebychev_SOR_Jacobi_body G self T i x)
             is (Inr x0) = Inr y \<Longrightarrow> length y = n" for "is" :: "int list" and y
  proof (induction "is" arbitrary: y rule: rev_induct)
    case Nil
    then show ?case using assms(2) by simp
  next
    case (snoc i "is")
    then show ?case
      using assms(1)
      by (auto simp: Chebychev_SOR_Jacobi_body_def length_relaxed split: sum.splits)
  qed
  then show ?thesis using assms(3) by (simp add: Chebychev_SOR_Jacobi_loop_def)
qed

lemma init_lengths:
  assumes "square_matrix n P"
  shows "length (diag_embed (map inverse (torch_diagonal P))) = n"
    and "length P = n"
  using assms by (simp_all add: square_matrixD)

lemma length_draw_block: "length (map g [i * n..<i * n + n]) = n"
  by simp

text \<open>
  C4, as the notebook has it. The plot functions take no fixed point. For a matrix \<open>P\<close>
  with non-zero diagonal and a maximum iteration count \<open>max_itr\<close>, each performs one fresh
  run for every step count \<open>i\<close> in \<open>[0, max_itr)\<close>: run \<open>i\<close> starts from its own draw, the
  \<open>i\<close>-th block of \<open>n\<close> samples of the generator, and makes \<open>i\<close> steps from it. The curve
  holds at index \<open>i\<close> the Euclidean norm of the final iterate of run \<open>i\<close>, which is its
  distance to the zero vector: the distance to the fixed point when that is zero, as it is
  for \<open>q = 0\<close>.
\<close>

theorem tracker_records_norms_of_fresh_runs:
  assumes "square_matrix n P" and "\<forall>i<n. P ! i ! i \<noteq> 0"
  shows "(\<exists>jacobi. Jacobi_init P q = Inr jacobi \<and>
            plot_pure_jacobi G P q g =
              Inr (map (\<lambda>i. torch_norm (vec_sub (Jacobi_loop jacobi (int i) (map g [i * n..<i * n + n]))
                                                (replicate n 0)))
                       [0..<nat (global_max_itr G)],
                   \<lambda>k. g (nat (global_max_itr G) * n + k)))
       \<and> (global_lmax G + global_lmin G \<noteq> 0 \<longrightarrow>
           (\<exists>sor. SOR_Jacobi_init P (global_q G) (2 / (global_lmax G + global_lmin G)) = Inr sor \<and>
              plot_sor_jacobi G P b g =
                Inr (map (\<lambda>i. torch_norm (vec_sub (SOR_Jacobi_loop sor (int i) (map g [i * n..<i * n + n]))
                                                  (replicate n 0)))
                         [0..<nat (global_max_itr G)],
                     \<lambda>k. g (nat (global_max_itr G) * n + k))))
       \<and> (0 < T \<and> 0 < global_lmin G \<and> global_lmin G \<le> global_lmax G \<longrightarrow>
           (\<exists>cheb. Chebychev_SOR_Jacobi_init P (global_q G) = Inr cheb \<and>
              plot_chebychev_sor_jacobi G T P b g =
                Inr (map (\<lambda>i. torch_norm (vec_sub (projr (Chebychev_SOR_Jacobi_loop G cheb (int i) T
                                                             (map g [i * n..<i * n + n])))
                                                  (replicate n 0)))
                         [0..<nat (global_max_itr G)],
                     \<lambda>k. g (nat (global_max_itr G) * n + k))))"
proof (intro conjI impI)
  let ?R = "mat_sub P (diag_embed (torch_diagonal P))"
  let ?Di = "diag_embed (map inverse (torch_diagonal P))"
  note nz = nonzero_diagonal [OF assms]
  note len = init_lengths [OF assms(1)]
  show "\<exists>jacobi. Jacobi_init P q = Inr jacobi \<and>
            plot_pure_jacobi G P q g =
              Inr (map (\<lambda>i. torch_norm (vec_sub (Jacobi_loop jacobi (int i) (map g [i * n..<i * n + n]))
                                                (replicate n 0)))
                       [0..<nat (global_max_itr G)],
                   \<lambda>k. g (nat (global_max_itr G) * n + k))"
  proof -
    let ?J = "\<lparr>self_R = ?R, self_Dinv = ?Di, self_b = q\<rparr>"
    have init: "Jacobi_init P q = Inr ?J" using nz by (simp add: Jacobi_init_eq)
    have "length (Jacobi_loop ?J k (map g [i * n..<i * n + n])) = n" for k i
      by (rule length_Jacobi_loop) (simp_all add: len)
    then show ?thesis
      using init by (simp add: plot_pure_jacobi_eq [OF init] len vec_sub_zero_right)
  qed
  show "\<exists>sor. SOR_Jacobi_init P (global_q G) (2 / (global_lmax G + global_lmin G)) = Inr sor \<and>
              plot_sor_jacobi G P b g =
                Inr (map (\<lambda>i. torch_norm (vec_sub (SOR_Jacobi_loop sor (int i) (map g [i * n..<i * n + n]))
                                                  (replicate n 0)))
                         [0..<nat (global_max_itr G)],
                     \<lambda>k. g (nat (global_max_itr G) * n + k))"
    if "global_lmax G + global_lmin G \<noteq> 0"
  proof -
    let ?w = "2 / (global_lmax G + global_lmin G)"
    let ?S = "\<lparr>self_R = ?R, self_Dinv = ?Di, self_b = global_q G, self_omega = ?w\<rparr>"
    have w: "omega_opt (global_lmin G) (global_lmax G) = Inr ?w"
      using that by (simp add: omega_opt_def)
    have init: "SOR_Jacobi_init P (global_q G) ?w = Inr ?S" using nz by (simp add: SOR_Jacobi_init_eq)
    have "length (SOR_Jacobi_loop ?S k (map g [i * n..<i * n + n])) = n" for k i
      by (rule length_SOR_Jacobi_loop) (simp_all add: len)
    then show ?thesis
      using init by (simp add: plot_sor_jacobi_eq [OF w init] len vec_sub_zero_right)
  qed
  show "\<exists>cheb. Chebychev_SOR_Jacobi_init P (global_q G) = Inr cheb \<and>
              plot_chebychev_sor_jacobi G T P b g =
                Inr (map (\<lambda>i. torch_norm (vec_sub (projr (Chebychev_SOR_Jacobi_loop G cheb (int i) T
                                                             (map g [i * n..<i * n + n])))
                                                  (replicate n 0)))
                         [0..<nat (global_max_itr G)],
                     \<lambda>k. g (nat (global_max_itr G) * n + k))"
    if "0 < T \<and> 0 < global_lmin G \<and> global_lmin G \<le> global_lmax G"
  proof -
    let ?C = "\<lparr>self_R = ?R, self_Dinv = ?Di, self_b = global_q G\<rparr>"
    from that have T: "0 < T" and lo: "0 < global_lmin G" and le: "global_lmin G \<le> global_lmax G"
      by simp_all
    have init: "Chebychev_SOR_Jacobi_init P (global_q G) = Inr ?C"
      using nz by (simp add: Chebychev_SOR_Jacobi_init_eq)
    have "length (projr (Chebychev_SOR_Jacobi_loop G ?C k T (map g [i * n..<i * n + n]))) = n" for k i
    proof -
      obtain y where y: "Chebychev_SOR_Jacobi_loop G ?C k T (map g [i * n..<i * n + n]) = Inr y"
        using Chebychev_SOR_Jacobi_loop_succeeds [OF T lo le] by blast
      have "length y = n"
        by (rule length_Chebychev_SOR_Jacobi_loop [OF _ _ y]) (simp_all add: len)
      with y show ?thesis by simp
    qed
    then show ?thesis
      using init by (simp add: plot_chebychev_sor_jacobi_eq [OF init T lo le] len vec_sub_zero_right)
  qed
qed


theorem tracker_records_norms_of_fresh_runs_witness:
  "square_matrix 1 [[2]] \<and> [[2::real]] ! 0 ! 0 \<noteq> 0 \<and> (3::real) + 1 \<noteq> 0 \<and>
   (0::int) < 1 \<and> (0::real) < 1 \<and> (1::real) \<le> 3 \<and>
   (\<exists>jacobi. Jacobi_init [[2]] [0] = Inr jacobi \<and>
      plot_pure_jacobi \<lparr>global_max_itr = 2, global_lmin = 1, global_lmax = 3, global_q = [0]\<rparr>
          [[2]] [0] (constant_generator 1) =
        Inr ([torch_norm (vec_sub (Jacobi_loop jacobi 0 [1]) [0]),
              torch_norm (vec_sub (Jacobi_loop jacobi 1 [1]) [0])],
             constant_generator 1)) \<and>
   (\<exists>sor. SOR_Jacobi_init [[2]] [0] (1 / 2) = Inr sor \<and>
      plot_sor_jacobi \<lparr>global_max_itr = 2, global_lmin = 1, global_lmax = 3, global_q = [0]\<rparr>
          [[2]] [0] (constant_generator 1) =
        Inr ([torch_norm (vec_sub (SOR_Jacobi_loop sor 0 [1]) [0]),
              torch_norm (vec_sub (SOR_Jacobi_loop sor 1 [1]) [0])],
             constant_generator 1)) \<and>
   (\<exists>cheb. Chebychev_SOR_Jacobi_init [[2]] [0] = Inr cheb \<and>
      plot_chebychev_sor_jacobi \<lparr>global_max_itr = 2, global_lmin = 1, global_lmax = 3, global_q = [0]\<rparr>
          1 [[2]] [0] (constant_generator 1) =
        Inr ([torch_norm (vec_sub (projr (Chebychev_SOR_Jacobi_loop
                 \<lparr>global_max_itr = 2, global_lmin = 1, global_lmax = 3, global_q = [0]\<rparr> cheb 0 1 [1])) [0]),
              torch_norm (vec_sub (projr (Chebychev_SOR_Jacobi_loop
                 \<lparr>global_max_itr = 2, global_lmin = 1, global_lmax = 3, global_q = [0]\<rparr> cheb 1 1 [1])) [0])],
             constant_generator 1))"
proof -
  let ?G = "\<lparr>global_max_itr = 2, global_lmin = 1, global_lmax = 3, global_q = [0]\<rparr>"
  have sq: "square_matrix 1 [[2]]" by (simp add: square_matrix_def)
  have nz: "\<forall>i<1. [[2::real]] ! i ! i \<noteq> 0" by simp
  have p: "global_lmax ?G + global_lmin ?G \<noteq> 0" by simp
  have q: "0 < (1::int) \<and> 0 < global_lmin ?G \<and> global_lmin ?G \<le> global_lmax ?G" by simp
  note t = tracker_records_norms_of_fresh_runs [OF sq nz, of "[0]" ?G "constant_generator 1" "[0]" 1]
  note a = t [THEN conjunct1]
  note b = t [THEN conjunct2, THEN conjunct1, THEN mp, OF p]
  note c = t [THEN conjunct2, THEN conjunct2, THEN mp, OF q]
  have u: "[0..<2] = [0, Suc 0]" by (simp add: numeral_2_eq_2)
  show ?thesis
  proof (intro conjI)
    show "\<exists>jacobi. Jacobi_init [[2]] [0] = Inr jacobi \<and>
      plot_pure_jacobi ?G [[2]] [0] (constant_generator 1) =
        Inr ([torch_norm (vec_sub (Jacobi_loop jacobi 0 [1]) [0]),
              torch_norm (vec_sub (Jacobi_loop jacobi 1 [1]) [0])],
             constant_generator 1)"
      using a by (simp add: u constant_generator_def)
    show "\<exists>sor. SOR_Jacobi_init [[2]] [0] (1 / 2) = Inr sor \<and>
      plot_sor_jacobi ?G [[2]] [0] (constant_generator 1) =
        Inr ([torch_norm (vec_sub (SOR_Jacobi_loop sor 0 [1]) [0]),
              torch_norm (vec_sub (SOR_Jacobi_loop sor 1 [1]) [0])],
             constant_generator 1)"
      using b by (simp add: u constant_generator_def)
    show "\<exists>cheb. Chebychev_SOR_Jacobi_init [[2]] [0] = Inr cheb \<and>
      plot_chebychev_sor_jacobi ?G 1 [[2]] [0] (constant_generator 1) =
        Inr ([torch_norm (vec_sub (projr (Chebychev_SOR_Jacobi_loop ?G cheb 0 1 [1])) [0]),
              torch_norm (vec_sub (projr (Chebychev_SOR_Jacobi_loop ?G cheb 1 1 [1])) [0])],
             constant_generator 1)"
      using c by (simp add: u constant_generator_def)
  qed (use sq in simp_all)
qed

text \<open>
  At \<open>P = [[1]]\<close>, \<open>q = [1]\<close> the fixed point of the iteration is \<open>x* = [1]\<close>. With a generator
  that delivers zeros, run 0 returns \<open>[0]\<close>, at distance 1 from \<open>x*\<close>, and run 1 returns
  \<open>[1]\<close>, at distance 0; the recorded curve is \<open>[0, 1]\<close>, the norms of the iterates.
\<close>

theorem tracker_ignores_fixed_point:
  "Jacobi_init [[1]] [1] = Inr \<lparr>self_R = [[0]], self_Dinv = [[1]], self_b = [1]\<rparr>
   \<and> Jacobi_loop \<lparr>self_R = [[0]], self_Dinv = [[1]], self_b = [1]\<rparr> 1 [1] = [1]
   \<and> plot_pure_jacobi \<lparr>global_max_itr = 2, global_lmin = 1, global_lmax = 3, global_q = [1]\<rparr>
        [[1]] [1] (constant_generator 0) = Inr ([0, 1], constant_generator 0)
   \<and> Jacobi_loop \<lparr>self_R = [[0]], self_Dinv = [[1]], self_b = [1]\<rparr> 0 [0] = [0]
   \<and> torch_norm (vec_sub [0] [1]) = 1
   \<and> Jacobi_loop \<lparr>self_R = [[0]], self_Dinv = [[1]], self_b = [1]\<rparr> 1 [0] = [1]
   \<and> torch_norm (vec_sub [1] [1]) = 0"
proof -
  let ?J = "\<lparr>self_R = [[0]], self_Dinv = [[1]], self_b = [1]\<rparr>"
  have init: "Jacobi_init [[1]] [1] = Inr ?J"
    by (simp add: Jacobi_init_eq torch_diagonal_def diag_embed_def mat_sub_def)
  have l0: "Jacobi_loop ?J 0 [0] = [0]" by (simp add: Jacobi_loop_def)
  have l1: "Jacobi_loop ?J 1 [a] = [1]" for a
    by (simp add: Jacobi_loop_def range_py_def matvec_def vec_sub_def)
  have "plot_pure_jacobi \<lparr>global_max_itr = 2, global_lmin = 1, global_lmax = 3, global_q = [1]\<rparr>
          [[1]] [1] (constant_generator 0) = Inr ([0, 1], constant_generator 0)"
    by (simp add: plot_pure_jacobi_eq [OF init] numeral_2_eq_2 l0 l1 torch_norm_def constant_generator_def)
  then show ?thesis using init l0 l1 by (simp add: torch_norm_def vec_sub_def)
qed

subsection \<open>Runs of zero steps\<close>

lemma loops_0:
  "Jacobi_loop jac 0 x = x"
  "SOR_Jacobi_loop sor 0 x = x"
  "Chebychev_SOR_Jacobi_loop G cheb 0 T x = Inr x"
  by (simp_all add: Jacobi_loop_def SOR_Jacobi_loop_def Chebychev_SOR_Jacobi_loop_def)

text \<open>
  C10. With \<open>num_itr = 0\<close> each \<open>forward\<close> method returns the vector it has just drawn,
  whatever the matrices and the period are: no step is made and nothing can raise.
  So, when the decomposition succeeds and \<open>max_itr\<close> is positive, the entry at index 0 of
  each error curve is the norm of the first draw of the generator.
\<close>

theorem zero_iterations_return_initial_iterate:
  "Jacobi_forward jac 0 g = torch_normal (length (self_R jac)) g
   \<and> SOR_Jacobi_forward sor 0 g = torch_normal (length (self_R sor)) g
   \<and> Chebychev_SOR_Jacobi_forward G cheb 0 T g = Inr (torch_normal (length (self_R cheb)) g)
   \<and> (square_matrix n P \<and> (\<forall>i<n. P ! i ! i \<noteq> 0) \<and> 0 < global_max_itr G \<longrightarrow>
        (\<exists>norm_list g'. plot_pure_jacobi G P q g = Inr (norm_list, g')
            \<and> norm_list ! 0 = torch_norm (fst (torch_normal n g)))
      \<and> (global_lmax G + global_lmin G \<noteq> 0 \<longrightarrow>
           (\<exists>norm_list g'. plot_sor_jacobi G P q g = Inr (norm_list, g')
               \<and> norm_list ! 0 = torch_norm (fst (torch_normal n g))))
      \<and> (0 < T \<and> 0 < global_lmin G \<and> global_lmin G \<le> global_lmax G \<longrightarrow>
           (\<exists>norm_list g'. plot_chebychev_sor_jacobi G T P q g = Inr (norm_list, g')
               \<and> norm_list ! 0 = torch_norm (fst (torch_normal n g)))))"
proof (intro conjI impI)
  show "Jacobi_forward jac 0 g = torch_normal (length (self_R jac)) g"
    by (simp add: Jacobi_forward_eq loops_0 torch_normal_def)
  show "SOR_Jacobi_forward sor 0 g = torch_normal (length (self_R sor)) g"
    by (simp add: SOR_Jacobi_forward_eq loops_0 torch_normal_def)
  show "Chebychev_SOR_Jacobi_forward G cheb 0 T g = Inr (torch_normal (length (self_R cheb)) g)"
    by (simp add: Chebychev_SOR_Jacobi_forward_eq loops_0 torch_normal_def)
next
  assume h: "square_matrix n P \<and> (\<forall>i<n. P ! i ! i \<noteq> 0) \<and> 0 < global_max_itr G"
  then have sq: "square_matrix n P" and nzd: "\<forall>i<n. P ! i ! i \<noteq> 0" and m: "0 < nat (global_max_itr G)"
    by simp_all
  note nz = nonzero_diagonal [OF sq nzd]
  note len = init_lengths [OF sq]
  let ?R = "mat_sub P (diag_embed (torch_diagonal P))"
  let ?Di = "diag_embed (map inverse (torch_diagonal P))"
  show "\<exists>norm_list g'. plot_pure_jacobi G P q g = Inr (norm_list, g')
            \<and> norm_list ! 0 = torch_norm (fst (torch_normal n g))"
  proof -
    have init: "Jacobi_init P q = Inr \<lparr>self_R = ?R, self_Dinv = ?Di, self_b = q\<rparr>"
      using nz by (simp add: Jacobi_init_eq)
    show ?thesis
      using m by (simp add: plot_pure_jacobi_eq [OF init] len loops_0 torch_normal_def)
  qed
  show "\<exists>norm_list g'. plot_sor_jacobi G P q g = Inr (norm_list, g')
               \<and> norm_list ! 0 = torch_norm (fst (torch_normal n g))"
    if "global_lmax G + global_lmin G \<noteq> 0"
  proof -
    let ?w = "2 / (global_lmax G + global_lmin G)"
    have w: "omega_opt (global_lmin G) (global_lmax G) = Inr ?w"
      using that by (simp add: omega_opt_def)
    have init: "SOR_Jacobi_init P (global_q G) ?w =
                  Inr \<lparr>self_R = ?R, self_Dinv = ?Di, self_b = global_q G, self_omega = ?w\<rparr>"
      using nz by (simp add: SOR_Jacobi_init_eq)
    show ?thesis
      using m by (simp add: plot_sor_jacobi_eq [OF w init] len loops_0 torch_normal_def)
  qed
  show "\<exists>norm_list g'. plot_chebychev_sor_jacobi G T P q g = Inr (norm_list, g')
               \<and> norm_list ! 0 = torch_norm (fst (torch_normal n g))"
    if "0 < T \<and> 0 < global_lmin G \<and> global_lmin G \<le> global_lmax G"
  proof -
    from that have T: "0 < T" and lo: "0 < global_lmin G" and le: "global_lmin G \<le> global_lmax G"
      by simp_all
    have init: "Chebychev_SOR_Jacobi_init P (global_q G) =
                  Inr \<lparr>self_R = ?R, self_Dinv = ?Di, self_b = global_q G\<rparr>"
      using nz by (simp add: Chebychev_SOR_Jacobi_init_eq)
    show ?thesis
      using m by (simp add: plot_chebychev_sor_jacobi_eq [OF init T lo le] len loops_0 torch_normal_def)
  qed
qed


theorem zero_iterations_return_initial_iterate_witness:
  "square_matrix 1 [[2]] \<and> [[2::real]] ! 0 ! 0 \<noteq> 0 \<and> (0::int) < 2 \<and> (3::real) + 1 \<noteq> 0 \<and>
   (0::int) < 1 \<and> (0::real) < 1 \<and> (1::real) \<le> 3 \<and>
   Jacobi_forward \<lparr>self_R = [[0]], self_Dinv = [[1 / 2]], self_b = [0]\<rparr> 0 (constant_generator 1)
     = ([1], constant_generator 1) \<and>
   SOR_Jacobi_forward \<lparr>self_R = [[0]], self_Dinv = [[1 / 2]], self_b = [0], self_omega = 1 / 2\<rparr> 0
       (constant_generator 1)
     = ([1], constant_generator 1) \<and>
   Chebychev_SOR_Jacobi_forward \<lparr>global_max_itr = 2, global_lmin = 1, global_lmax = 3, global_q = [0]\<rparr>
       \<lparr>self_R = [[0]], self_Dinv = [[1 / 2]], self_b = [0]\<rparr> 0 1 (constant_generator 1)
     = Inr ([1], constant_generator 1) \<and>
   (\<exists>norm_list g'.
      plot_pure_jacobi \<lparr>global_max_itr = 2, global_lmin = 1, global_lmax = 3, global_q = [0]\<rparr>
        [[2]] [0] (constant_generator 1) = Inr (norm_list, g') \<and> norm_list ! 0 = 1) \<and>
   (\<exists>norm_list g'.
      plot_sor_jacobi \<lparr>global_max_itr = 2, global_lmin = 1, global_lmax = 3, global_q = [0]\<rparr>
        [[2]] [0] (constant_generator 1) = Inr (norm_list, g') \<and> norm_list ! 0 = 1) \<and>
   (\<exists>norm_list g'.
      plot_chebychev_sor_jacobi \<lparr>global_max_itr = 2, global_lmin = 1, global_lmax = 3, global_q = [0]\<rparr>
        1 [[2]] [0] (constant_generator 1) = Inr (norm_list, g') \<and> norm_list ! 0 = 1)"
proof -
  let ?G = "\<lparr>global_max_itr = 2, global_lmin = 1, global_lmax = 3, global_q = [0]\<rparr>"
  let ?J = "\<lparr>self_R = [[0]], self_Dinv = [[1 / 2]], self_b = [0]\<rparr>"
  let ?S = "\<lparr>self_R = [[0]], self_Dinv = [[1 / 2]], self_b = [0], self_omega = 1 / 2\<rparr>"
  have sq: "square_matrix 1 [[2]]" by (simp add: square_matrix_def)
  have h: "square_matrix 1 [[2]] \<and> (\<forall>i<1. [[2::real]] ! i ! i \<noteq> 0) \<and> 0 < global_max_itr ?G"
    using sq by simp
  have p: "global_lmax ?G + global_lmin ?G \<noteq> 0" by simp
  have q: "0 < (1::int) \<and> 0 < global_lmin ?G \<and> global_lmin ?G \<le> global_lmax ?G" by simp
  have draw: "torch_normal (Suc 0) (constant_generator 1) = ([1], constant_generator 1)"
    by (simp add: torch_normal_def constant_generator_def)
  have norm1: "torch_norm [1] = 1" by (simp add: torch_norm_def)
  note t = zero_iterations_return_initial_iterate
             [of ?J "constant_generator 1" ?S ?G ?J 1 1 "[[2]]" "[0]"]
  note f1 = t [THEN conjunct1]
  note f2 = t [THEN conjunct2, THEN conjunct1]
  note f3 = t [THEN conjunct2, THEN conjunct2, THEN conjunct1]
  note pl = t [THEN conjunct2, THEN conjunct2, THEN conjunct2, THEN mp, OF h]
  note p1 = pl [THEN conjunct1]
  note p2 = pl [THEN conjunct2, THEN conjunct1, THEN mp, OF p]
  note p3 = pl [THEN conjunct2, THEN conjunct2, THEN mp, OF q]
  show ?thesis
    using sq f1 f2 f3 p1 p2 p3 by (simp add: draw norm1)
qed

subsection \<open>Spectral bounds are not validated\<close>

text \<open>
  The bounds \<open>lmin = -1\<close>, \<open>lmax = 3\<close> have \<open>lmin \<le> 0\<close>; the bounds \<open>lmin = 3\<close>, \<open>lmax = 1\<close>
  have \<open>lmin > lmax\<close>; the bounds \<open>lmin = -3\<close>, \<open>lmax = 1\<close> have \<open>lmin + lmax < 0\<close>. For each the
  constant factor and the Chebyshev factor are computed, and with the first the run of
  \<^verbatim>\<open>plot_sor_jacobi\<close> returns its error curve.
\<close>

theorem invalid_bounds_are_accepted:
  "omega_opt (- 1) 3 = Inr 1 \<and> chebychev_gamma 0 (- 1) 3 1 = Inr 1
   \<and> omega_opt 3 1 = Inr (1 / 2) \<and> chebychev_gamma 0 3 1 1 = Inr (1 / 2)
   \<and> omega_opt (- 3) 1 = Inr (- 1) \<and> chebychev_gamma 0 (- 3) 1 1 = Inr (- 1)
   \<and> plot_sor_jacobi \<lparr>global_max_itr = 2, global_lmin = - 1, global_lmax = 3, global_q = [0]\<rparr>
        [[1]] [0] (constant_generator 1) = Inr ([1, 0], constant_generator 1)"
proof -
  let ?G = "\<lparr>global_max_itr = 2, global_lmin = - 1, global_lmax = 3, global_q = [0]\<rparr>"
  let ?S = "\<lparr>self_R = [[0]], self_Dinv = [[1]], self_b = [0], self_omega = 1\<rparr>"
  have w: "omega_opt (global_lmin ?G) (global_lmax ?G) = Inr 1" by (simp add: omega_opt_def)
  have init: "SOR_Jacobi_init [[1]] (global_q ?G) 1 = Inr ?S"
    by (simp add: SOR_Jacobi_init_eq torch_diagonal_def diag_embed_def mat_sub_def)
  have l0: "SOR_Jacobi_loop ?S 0 [1] = [1]" by (simp add: loops_0)
  have l1: "SOR_Jacobi_loop ?S 1 [1] = [0]"
    by (simp add: SOR_Jacobi_loop_def range_py_def matvec_def vec_sub_def vec_add_def scal_def)
  have "plot_sor_jacobi ?G [[1]] [0] (constant_generator 1) = Inr ([1, 0], constant_generator 1)"
    by (simp add: plot_sor_jacobi_eq [OF w init] numeral_2_eq_2 l0 l1 torch_norm_def
        constant_generator_def)
  then show ?thesis
    by (simp add: omega_opt_def chebychev_gamma_def c_root_def)
qed

text \<open>
  C7, as the notebook has it. The constant relaxation factor is computed without any check
  of the spectral bounds; its only failure is the division by zero at \<open>lmin + lmax = 0\<close>,
  and then \<^verbatim>\<open>plot_sor_jacobi\<close> is aborted before the solver is built and before any
  iteration. Otherwise the factor is \<open>2 / (lmin + lmax)\<close> and, for a matrix with non-zero
  diagonal, the run returns its whole error curve, whatever the signs and the order of the
  bounds. Nothing is stated here on when the division of the Chebyshev step fails.
\<close>

theorem constant_factor_fails_only_by_zero_division:
  "omega_opt lo hi = (if lo + hi = 0 then Inl ZeroDivisionError else Inr (2 / (lo + hi)))
   \<and> (global_lmin G + global_lmax G = 0 \<longrightarrow> plot_sor_jacobi G P b g = Inl ZeroDivisionError)
   \<and> (global_lmin G + global_lmax G \<noteq> 0 \<and> square_matrix n P \<and> (\<forall>i<n. P ! i ! i \<noteq> 0) \<longrightarrow>
        (\<exists>norm_list g'. plot_sor_jacobi G P b g = Inr (norm_list, g')
            \<and> int (length norm_list) = max 0 (global_max_itr G)))"
proof (intro conjI impI)
  show "omega_opt lo hi = (if lo + hi = 0 then Inl ZeroDivisionError else Inr (2 / (lo + hi)))"
    by (simp add: omega_opt_def add.commute)
  show "plot_sor_jacobi G P b g = Inl ZeroDivisionError" if "global_lmin G + global_lmax G = 0"
    using that by (simp add: plot_sor_jacobi_def omega_opt_def add.commute)
  show "\<exists>norm_list g'. plot_sor_jacobi G P b g = Inr (norm_list, g')
            \<and> int (length norm_list) = max 0 (global_max_itr G)"
    if h: "global_lmin G + global_lmax G \<noteq> 0 \<and> square_matrix n P \<and> (\<forall>i<n. P ! i ! i \<noteq> 0)"
  proof -
    let ?w = "2 / (global_lmax G + global_lmin G)"
    from h have sq: "square_matrix n P" and nzd: "\<forall>i<n. P ! i ! i \<noteq> 0" by simp_all
    have w: "omega_opt (global_lmin G) (global_lmax G) = Inr ?w"
      using h by (simp add: omega_opt_def add.commute)
    have init: "SOR_Jacobi_init P (global_q G) ?w =
                  Inr \<lparr>self_R = mat_sub P (diag_embed (torch_diagonal P)),
                       self_Dinv = diag_embed (map inverse (torch_diagonal P)),
                       self_b = global_q G, self_omega = ?w\<rparr>"
      using nonzero_diagonal [OF sq nzd] by (simp add: SOR_Jacobi_init_eq)
    show ?thesis by (simp add: plot_sor_jacobi_eq [OF w init])
  qed
qed

theorem constant_factor_fails_only_by_zero_division_witness:
  "(- 1 :: real) + 1 = 0 \<and>
   plot_sor_jacobi \<lparr>global_max_itr = 2, global_lmin = - 1, global_lmax = 1, global_q = [0]\<rparr>
     [[1]] [0] (constant_generator 1) = Inl ZeroDivisionError \<and>
   (- 1 :: real) + 3 \<noteq> 0 \<and> square_matrix 1 [[1]] \<and> [[1::real]] ! 0 ! 0 \<noteq> 0 \<and>
   omega_opt (- 1) 3 = Inr 1 \<and>
   (\<exists>norm_list g'.
      plot_sor_jacobi \<lparr>global_max_itr = 2, global_lmin = - 1, global_lmax = 3, global_q = [0]\<rparr>
        [[1]] [0] (constant_generator 1) = Inr (norm_list, g') \<and> int (length norm_list) = 2)"
proof -
  let ?G0 = "\<lparr>global_max_itr = 2, global_lmin = - 1, global_lmax = 1, global_q = [0]\<rparr>"
  let ?G1 = "\<lparr>global_max_itr = 2, global_lmin = - 1, global_lmax = 3, global_q = [0]\<rparr>"
  have sq: "square_matrix 1 [[1]]" by (simp add: square_matrix_def)
  have z: "global_lmin ?G0 + global_lmax ?G0 = 0" by simp
  have h: "global_lmin ?G1 + global_lmax ?G1 \<noteq> 0 \<and> square_matrix 1 [[1]] \<and> (\<forall>i<1. [[1::real]] ! i ! i \<noteq> 0)"
    using sq by simp
  note t0 = constant_factor_fails_only_by_zero_division [of _ _ ?G0 "[[1]]" "[0]" "constant_generator 1"]
  note t1 = constant_factor_fails_only_by_zero_division [of "- 1" 3 ?G1 "[[1]]" "[0]" "constant_generator 1" 1]
  note a = t0 [THEN conjunct2, THEN conjunct1, THEN mp, OF z]
  note w = t1 [THEN conjunct1]
  note b = t1 [THEN conjunct2, THEN conjunct2, THEN mp, OF h]
  show ?thesis using sq a b w by simp
qed

end
